theory Spec2Isabelle
  imports Complex_Main "HOL-Library.Monad_Syntax" "HOL-Library.Log_Nat"
begin

section \<open>FGElectric: the electric motor model of JSBSim\<close>

text \<open>
  This theory embeds \<^verbatim>\<open>src/models/propulsion/FGElectric.cpp\<close>. In the main model the
  C++ type \<^verbatim>\<open>double\<close> is read as \<^typ>\<open>real\<close>: arithmetic is exact, there is no
  rounding, no infinity and no NaN. A division whose divisor is zero has no real result;
  the model returns \<open>None\<close> there (IEEE arithmetic would give an infinity or a NaN), so
  every division of the source is a checked step of the model. Statements proved on this
  model are statements about the computation in exact arithmetic. The lag filter is
  modelled a second time with the rounding of IEEE binary64 after every operation; that
  model decides what depends on rounding.
\<close>

subsection \<open>Data\<close>

text \<open>
  The conversion factors \<^verbatim>\<open>wattstohp\<close>, \<^verbatim>\<open>hptoftlbssec\<close> and \<^verbatim>\<open>rpmtoradpsec\<close>
  are declared in a header that is not part of the source file; they are parameters here.
\<close>

record FGJSBBase =
  wattstohp :: real
  hptoftlbssec :: real
  rpmtoradpsec :: real

text \<open>The members of the class that \<^verbatim>\<open>Calculate\<close> reads or writes.\<close>

record FGElectric =
  PowerMax :: real
  MaxRPM :: real
  Tau :: real
  FiltState :: real
  HP :: real

text \<open>
  The engine inputs \<^verbatim>\<open>in\<close>: \<open>ThrottlePos\<close> stands for
  \<^verbatim>\<open>in.ThrottlePos[EngineNumber]\<close>, the entry of this engine.
\<close>

record Inputs =
  ThrottlePos :: real
  TotalDeltaT :: real

text \<open>What the attached thruster answers to the four queries of \<^verbatim>\<open>Calculate\<close>.\<close>

record Thruster =
  GetPowerRequired :: real
  GetGearRatio :: real
  GetRPM :: real
  GetTorque :: real

text \<open>
  The outcome of one call of \<^verbatim>\<open>Calculate\<close>: the object afterwards, the argument
  handed to \<^verbatim>\<open>Thruster->Calculate\<close>, and the value of the local \<^verbatim>\<open>CmdPower\<close> just
  before the saturation of line 160.
\<close>

record calc_result =
  motor :: FGElectric
  ThrusterCmd :: real
  rawCmdPower :: real

subsection \<open>The constructor\<close>

text \<open>
  Lines 73 to 84. The optional XML elements are \<open>None\<close> when absent. \<^verbatim>\<open>PowerMax\<close>
  and \<^verbatim>\<open>HP\<close> keep the values \<open>pm0\<close> and \<open>hp0\<close> they had before the constructor
  body when nothing assigns them.
\<close>

definition FGElectric_init ::
  "real \<Rightarrow> real \<Rightarrow> real option \<Rightarrow> real option \<Rightarrow> real option \<Rightarrow> FGElectric" where
  "FGElectric_init pm0 hp0 el_power el_maxrpm el_tau =
     \<lparr>PowerMax = (case el_power of None \<Rightarrow> pm0 | Some p \<Rightarrow> p),
      MaxRPM = (case el_maxrpm of None \<Rightarrow> 0 | Some r \<Rightarrow> r),
      Tau = (case el_tau of None \<Rightarrow> 0 | Some x \<Rightarrow> x),
      FiltState = 0,
      HP = hp0\<rparr>"

subsection \<open>Calculate\<close>

text \<open>A division of two doubles; no real result when the divisor is zero.\<close>

definition fdiv :: "real \<Rightarrow> real \<Rightarrow> real option" where
  "fdiv x y = (if y = 0 then None else Some (x / y))"

text \<open>Line 112.\<close>

definition PowerMax_ftlbssec :: "FGJSBBase \<Rightarrow> FGElectric \<Rightarrow> real" where
  "PowerMax_ftlbssec k e = PowerMax e * wattstohp k * hptoftlbssec k"

text \<open>Lines 115, 128 and 148: the three assignments to \<^verbatim>\<open>dt\<close> are the same expression.\<close>

definition dt_clamp :: "Inputs \<Rightarrow> real" where
  "dt_clamp i = max 0.0001 (TotalDeltaT i)"

text \<open>
  Lines 129 and 149: \<^verbatim>\<open>alpha = 1 / (1 + (Tau / dt))\<close>, two divisions, in exact
  arithmetic (\<open>alpha_calc64\<close> below is the same line in binary64).
\<close>

definition alpha_calc :: "FGElectric \<Rightarrow> real \<Rightarrow> real option" where
  "alpha_calc e dt = do { q \<leftarrow> fdiv (Tau e) dt; fdiv 1 (1 + q) }"

text \<open>Lines 119 and 120: the commanded RPM.\<close>

definition CmdRPM_of :: "FGElectric \<Rightarrow> Inputs \<Rightarrow> real" where
  "CmdRPM_of e i = (let CmdRPM = MaxRPM e * ThrottlePos i in min CmdRPM (MaxRPM e))"

text \<open>Lines 122 to 124: the measured RPM at the motor, before the filter.\<close>

definition RPM_of :: "FGElectric \<Rightarrow> Thruster \<Rightarrow> real" where
  "RPM_of e t = (let RPM = GetRPM t * GetGearRatio t in min RPM (MaxRPM e))"

text \<open>
  Lines 127 to 133: the lag on the RPM measure. The result is the value of \<^verbatim>\<open>RPM\<close>
  after the block and the value of \<^verbatim>\<open>FiltState\<close> after it.
\<close>

definition RPM_lag :: "FGElectric \<Rightarrow> Inputs \<Rightarrow> real \<Rightarrow> (real \<times> real) option" where
  "RPM_lag e i RPM =
     (if Tau e > 0 then do {
        alpha \<leftarrow> alpha_calc e (dt_clamp i);
        let RPM = alpha * RPM + (1 - alpha) * FiltState e;
        Some (RPM, RPM)
      } else Some (RPM, FiltState e))"

text \<open>
  Lines 119 to 139, the branch \<^verbatim>\<open>MaxRPM > 0.0\<close>: the value of \<^verbatim>\<open>CmdPower\<close> at the end
  of the branch and the new \<^verbatim>\<open>FiltState\<close>. \<^verbatim>\<open>abs\<close> is the absolute value of a double.
\<close>

definition rpm_branch ::
  "FGJSBBase \<Rightarrow> FGElectric \<Rightarrow> Inputs \<Rightarrow> Thruster \<Rightarrow> (real \<times> real) option" where
  "rpm_branch k e i t = do {
     let PowerReq = GetPowerRequired t;
     let CmdRPM = CmdRPM_of e i;
     let GearRatio = GetGearRatio t;
     (RPM, Filt) \<leftarrow> RPM_lag e i (RPM_of e t);
     let DeltaRPM = CmdRPM - RPM;
     TorqueReq \<leftarrow> fdiv \<bar>GetTorque t\<bar> GearRatio;
     Some (TorqueReq * (DeltaRPM * rpmtoradpsec k) + PowerReq, Filt)
   }"

text \<open>
  Lines 142 to 157, the other branch. The block of line 145 declares a second
  \<^verbatim>\<open>PowerReqFilt\<close> (line 146), which hides the one of line 142 until the block ends:
  the filter output is written to the inner variable and to \<^verbatim>\<open>FiltState\<close>, and line
  157 reads the outer variable, which still holds \<^verbatim>\<open>PowerReq\<close>. Line 154 reads
  \<^verbatim>\<open>CmdPower\<close> before anything was assigned to it; \<open>CmdPower0\<close> is the value that
  read yields.
\<close>

definition power_branch ::
  "FGJSBBase \<Rightarrow> FGElectric \<Rightarrow> Inputs \<Rightarrow> Thruster \<Rightarrow> real \<Rightarrow> (real \<times> real) option" where
  "power_branch k e i t CmdPower0 = do {
     let PowerReq = GetPowerRequired t;
     let Cmd = ThrottlePos i;
     let PowerReqFilt = PowerReq;
     (CmdPower, Filt) \<leftarrow>
       (if Tau e > 0 then do {
          alpha \<leftarrow> alpha_calc e (dt_clamp i);
          let PowerReqFilt_inner = alpha * PowerReq + (1 - alpha) * FiltState e;
          Some (CmdPower0 - PowerReq, PowerReqFilt_inner)
        } else Some (CmdPower0, FiltState e));
     let CmdPower = PowerMax_ftlbssec k e * Cmd + PowerReq - PowerReqFilt;
     Some (CmdPower, Filt)
   }"

text \<open>
  Lines 101 to 167. The pre and post functions and the propeller's advance and feather
  settings act on other objects and are left out. The thruster's answers are taken as
  given in \<open>t\<close>.
\<close>

definition Calculate ::
  "FGJSBBase \<Rightarrow> Inputs \<Rightarrow> Thruster \<Rightarrow> real \<Rightarrow> FGElectric \<Rightarrow> calc_result option" where
  "Calculate k i t CmdPower0 e = do {
     (raw, Filt) \<leftarrow>
       (if MaxRPM e > 0 then rpm_branch k e i t else power_branch k e i t CmdPower0);
     let CmdPower = min raw (PowerMax_ftlbssec k e);
     hp \<leftarrow> fdiv CmdPower (hptoftlbssec k);
     Some \<lparr>motor = e\<lparr>FiltState := Filt, HP := hp\<rparr>,
           ThrusterCmd = CmdPower,
           rawCmdPower = raw\<rparr>
   }"

text \<open>Lines 171 to 174.\<close>

definition CalcFuelNeed :: "FGElectric \<Rightarrow> real" where
  "CalcFuelNeed e = 0"

subsection \<open>Repeated calls\<close>

text \<open>
  The simulation calls \<^verbatim>\<open>Calculate\<close> once per frame. \<open>run\<close> makes \<open>n\<close> calls in a
  row on the same motor; frame \<open>j\<close> has the inputs \<open>ins j\<close>, the thruster answers
  \<open>ths j\<close> and the indeterminate value \<open>cs j\<close>.
\<close>

fun run ::
  "FGJSBBase \<Rightarrow> (nat \<Rightarrow> Inputs) \<Rightarrow> (nat \<Rightarrow> Thruster) \<Rightarrow> (nat \<Rightarrow> real) \<Rightarrow> nat \<Rightarrow> FGElectric
     \<Rightarrow> FGElectric option" where
  "run k ins ths cs 0 e = Some e"
| "run k ins ths cs (Suc n) e = do {
     e' \<leftarrow> run k ins ths cs n e;
     r \<leftarrow> Calculate k (ins n) (ths n) (cs n) e';
     Some (motor r)
   }"

subsection \<open>The lag filter in binary64\<close>

text \<open>
  IEEE 754 binary64 with round to nearest, ties to even: a result is the exact result
  rounded to 53 significant bits. \<open>binade x\<close> is the exponent \<open>e\<close> with
  \<open>2 powi e \<le> x < 2 powi (e + 1)\<close> for \<open>x > 0\<close> (lemma \<open>binade_bounds\<close>), \<open>rne\<close> rounds to
  the nearest integer, ties to the even one, and \<open>b64\<close> rounds to the nearest double.
  Zero and the normal range are modelled: \<open>b64\<close> is \<open>None\<close> when the result would be
  subnormal or would overflow. The arguments of the operations are taken to be doubles.
\<close>

definition binade :: "real \<Rightarrow> int" where
  "binade x = (if 1 \<le> x then bitlen \<lfloor>x\<rfloor> - 1 else - bitlen (\<lceil>1 / x\<rceil> - 1))"

definition rne :: "real \<Rightarrow> int" where
  "rne y = (let f = \<lfloor>y\<rfloor>; d = y - of_int f
            in if d < 1 / 2 then f else if 1 / 2 < d then f + 1
               else if even f then f else f + 1)"

definition b64 :: "real \<Rightarrow> real option" where
  "b64 x = (if x = 0 then Some 0
            else let e = binade \<bar>x\<bar>;
                     ulp = 2 powi (e - 52);
                     r = of_int (rne (x / ulp)) * ulp
                 in if e < - 1022 \<or> 2 powi 1024 \<le> \<bar>r\<bar> then None else Some r)"

text \<open>A division of two doubles, rounded.\<close>

definition fdiv64 :: "real \<Rightarrow> real \<Rightarrow> real option" where
  "fdiv64 x y = (if y = 0 then None else b64 (x / y))"

text \<open>
  Lines 115, 128 and 148 in binary64: the literal \<^verbatim>\<open>0.0001\<close> is the double nearest to
  0.0001; \<^verbatim>\<open>max\<close> does not round.
\<close>

definition dt_clamp64 :: "Inputs \<Rightarrow> real option" where
  "dt_clamp64 i = do { eps \<leftarrow> b64 0.0001; Some (max eps (TotalDeltaT i)) }"

text \<open>Lines 129 and 149 in binary64: the quotient, the sum and the reciprocal are rounded.\<close>

definition alpha_calc64 :: "FGElectric \<Rightarrow> real \<Rightarrow> real option" where
  "alpha_calc64 e dt = do { q \<leftarrow> fdiv64 (Tau e) dt; s \<leftarrow> b64 (1 + q); fdiv64 1 s }"

text \<open>
  Lines 145 to 152 in binary64: the value stored in \<^verbatim>\<open>FiltState\<close> by a call in
  power-command mode. The two products, the difference and the sum of line 151 are
  rounded one by one.
\<close>

definition PowerReqFilt64 :: "FGElectric \<Rightarrow> Inputs \<Rightarrow> Thruster \<Rightarrow> real option" where
  "PowerReqFilt64 e i t =
     (if Tau e > 0 then do {
        let PowerReq = GetPowerRequired t;
        dt \<leftarrow> dt_clamp64 i;
        alpha \<leftarrow> alpha_calc64 e dt;
        p \<leftarrow> b64 (alpha * PowerReq);
        om \<leftarrow> b64 (1 - alpha);
        r \<leftarrow> b64 (om * FiltState e);
        b64 (p + r)
      } else Some (FiltState e))"

subsection \<open>Sample values\<close>

text \<open>
  Concrete conversion factors, motors, inputs and thruster answers at which the
  theorems below are instantiated: one horsepower is 745.7 W and 550 ft-lbs/sec, and
  one revolution per minute is about 0.10472 rad/sec.
\<close>

definition kx :: FGJSBBase where
  "kx = \<lparr>wattstohp = 10 / 7457, hptoftlbssec = 550, rpmtoradpsec = 0.10472\<rparr>"

definition power_filtered :: FGElectric where
  "power_filtered = \<lparr>PowerMax = 745.7, MaxRPM = 0, Tau = 1, FiltState = 0, HP = 0\<rparr>"

definition power_plain :: FGElectric where
  "power_plain = \<lparr>PowerMax = 745.7, MaxRPM = 0, Tau = 0, FiltState = 0, HP = 0\<rparr>"

definition rpm_filtered :: FGElectric where
  "rpm_filtered = \<lparr>PowerMax = 745.7, MaxRPM = 2000, Tau = 1, FiltState = 0, HP = 0\<rparr>"

definition half_throttle :: Inputs where
  "half_throttle = \<lparr>ThrottlePos = 1 / 2, TotalDeltaT = 1\<rparr>"

definition over_throttle :: Inputs where
  "over_throttle = \<lparr>ThrottlePos = 3 / 2, TotalDeltaT = 0\<rparr>"

definition loaded :: Thruster where
  "loaded = \<lparr>GetPowerRequired = 100, GetGearRatio = 1, GetRPM = 0, GetTorque = 0\<rparr>"

definition overspeed :: Thruster where
  "overspeed = \<lparr>GetPowerRequired = 0, GetGearRatio = 2, GetRPM = 1500, GetTorque = - 100\<rparr>"

text \<open>
  Motors in power-command mode for the binary64 model; every number is a double.
\<close>

definition slow_filter :: FGElectric where
  "slow_filter = \<lparr>PowerMax = 1000, MaxRPM = 0, Tau = 4, FiltState = 0, HP = 0\<rparr>"

definition tiny_tau :: FGElectric where
  "tiny_tau = \<lparr>PowerMax = 1000, MaxRPM = 0, Tau = 1 / 2 ^ 60, FiltState = 0, HP = 0\<rparr>"

definition need15 :: Thruster where
  "need15 = \<lparr>GetPowerRequired = 15, GetGearRatio = 1, GetRPM = 0, GetTorque = 0\<rparr>"

definition need3 :: Thruster where
  "need3 = \<lparr>GetPowerRequired = 3, GetGearRatio = 1, GetRPM = 0, GetTorque = 0\<rparr>"

section \<open>Closed forms of the branches\<close>

lemma fdiv_Some [simp]: "y \<noteq> 0 \<Longrightarrow> fdiv x y = Some (x / y)"
  by (simp add: fdiv_def)

lemma fdiv_None [simp]: "fdiv x 0 = None"
  by (simp add: fdiv_def)

lemma dt_clamp_gt0: "0 < dt_clamp i"
  by (simp add: dt_clamp_def less_max_iff_disj)

lemma alpha_calc_Some:
  assumes "0 < Tau e" "0 < dt"
  shows "alpha_calc e dt = Some (1 / (1 + Tau e / dt))"
proof -
  have "0 < Tau e / dt" using assms by simp
  then have "1 + Tau e / dt \<noteq> 0" by linarith
  with assms show ?thesis by (simp add: alpha_calc_def)
qed

lemma alpha_bounds:
  assumes "0 < tau" "0 < (dt::real)"
  shows "0 < 1 / (1 + tau / dt) \<and> 1 / (1 + tau / dt) < 1"
proof -
  have q: "0 < tau / dt" using assms by simp
  then show ?thesis by simp
qed

lemma power_branch_eq:
  "power_branch k e i t c =
     Some (PowerMax_ftlbssec k e * ThrottlePos i + GetPowerRequired t - GetPowerRequired t,
           if 0 < Tau e
           then 1 / (1 + Tau e / dt_clamp i) * GetPowerRequired t
                  + (1 - 1 / (1 + Tau e / dt_clamp i)) * FiltState e
           else FiltState e)"
  using dt_clamp_gt0 [of i] by (simp add: power_branch_def alpha_calc_Some Let_def)

lemma RPM_lag_eq:
  "RPM_lag e i x =
     (if 0 < Tau e
      then Some (1 / (1 + Tau e / dt_clamp i) * x + (1 - 1 / (1 + Tau e / dt_clamp i)) * FiltState e,
                 1 / (1 + Tau e / dt_clamp i) * x + (1 - 1 / (1 + Tau e / dt_clamp i)) * FiltState e)
      else Some (x, FiltState e))"
  using dt_clamp_gt0 [of i] by (simp add: RPM_lag_def alpha_calc_Some Let_def)

lemma rpm_branch_eq:
  assumes "GetGearRatio t \<noteq> 0" and "RPM_lag e i (RPM_of e t) = Some (x, f)"
  shows "rpm_branch k e i t =
     Some (\<bar>GetTorque t\<bar> / GetGearRatio t * ((CmdRPM_of e i - x) * rpmtoradpsec k)
             + GetPowerRequired t, f)"
  using assms by (simp add: rpm_branch_def Let_def)

lemma rpm_branch_None: "GetGearRatio t = 0 \<Longrightarrow> rpm_branch k e i t = None"
  by (simp add: rpm_branch_def Let_def split: Option.bind_split)

lemma Calculate_eq:
  assumes "hptoftlbssec k \<noteq> 0"
    and "(if MaxRPM e > 0 then rpm_branch k e i t else power_branch k e i t c) = Some (raw, f)"
  shows "Calculate k i t c e =
     Some \<lparr>motor = e\<lparr>FiltState := f, HP := min raw (PowerMax_ftlbssec k e) / hptoftlbssec k\<rparr>,
           ThrusterCmd = min raw (PowerMax_ftlbssec k e),
           rawCmdPower = raw\<rparr>"
  using assms by (simp add: Calculate_def Let_def del: if_split cong: if_cong)

lemma Calculate_SomeD:
  assumes "Calculate k i t c e = Some r"
  shows "hptoftlbssec k \<noteq> 0"
    and "(if MaxRPM e > 0 then rpm_branch k e i t else power_branch k e i t c)
           = Some (rawCmdPower r, FiltState (motor r))"
    and "ThrusterCmd r = min (rawCmdPower r) (PowerMax_ftlbssec k e)"
    and "HP (motor r) = ThrusterCmd r / hptoftlbssec k"
    and "PowerMax (motor r) = PowerMax e" "MaxRPM (motor r) = MaxRPM e" "Tau (motor r) = Tau e"
  using assms
  by (auto simp add: Calculate_def Let_def fdiv_def split: Option.bind_splits if_splits prod.splits)

lemma Calculate_power_eq:
  assumes "\<not> MaxRPM e > 0" and "hptoftlbssec k \<noteq> 0"
  shows "Calculate k i t c e =
     Some \<lparr>motor = e\<lparr>FiltState :=
                       (if 0 < Tau e
                        then 1 / (1 + Tau e / dt_clamp i) * GetPowerRequired t
                               + (1 - 1 / (1 + Tau e / dt_clamp i)) * FiltState e
                        else FiltState e),
                     HP := min (PowerMax_ftlbssec k e * ThrottlePos i) (PowerMax_ftlbssec k e)
                             / hptoftlbssec k\<rparr>,
           ThrusterCmd = min (PowerMax_ftlbssec k e * ThrottlePos i) (PowerMax_ftlbssec k e),
           rawCmdPower = PowerMax_ftlbssec k e * ThrottlePos i\<rparr>"
proof -
  have "(if MaxRPM e > 0 then rpm_branch k e i t else power_branch k e i t c) =
          Some (PowerMax_ftlbssec k e * ThrottlePos i,
                if 0 < Tau e
                then 1 / (1 + Tau e / dt_clamp i) * GetPowerRequired t
                       + (1 - 1 / (1 + Tau e / dt_clamp i)) * FiltState e
                else FiltState e)"
    using assms(1) by (simp add: power_branch_eq)
  from Calculate_eq [OF assms(2) this] show ?thesis .
qed

lemma Calculate_None_iff:
  "Calculate k i t c e = None \<longleftrightarrow>
     hptoftlbssec k = 0 \<or> (MaxRPM e > 0 \<and> GetGearRatio t = 0)"
proof (cases "MaxRPM e > 0")
  case False
  then show ?thesis
    by (cases "hptoftlbssec k = 0") (simp_all add: Calculate_def power_branch_eq Let_def)
next
  case True
  show ?thesis
  proof (cases "GetGearRatio t = 0")
    case True
    with \<open>MaxRPM e > 0\<close> show ?thesis by (simp add: Calculate_def rpm_branch_None)
  next
    case False
    obtain x g where l: "RPM_lag e i (RPM_of e t) = Some (x, g)"
      by (cases "0 < Tau e") (simp_all add: RPM_lag_eq)
    from True False rpm_branch_eq [OF False l, of k] show ?thesis
      by (cases "hptoftlbssec k = 0") (simp_all add: Calculate_def Let_def)
  qed
qed

section \<open>Bounds on the RPM branch\<close>


lemma RPM_of_le: "RPM_of e t \<le> MaxRPM e"
  by (simp add: RPM_of_def Let_def)

lemma convex_le:
  fixes a x y m :: real
  assumes "0 \<le> a" "a \<le> 1" "x \<le> m" "y \<le> m"
  shows "a * x + (1 - a) * y \<le> m"
proof -
  have "a * x \<le> a * m" using assms by (simp add: mult_left_mono)
  moreover have "(1 - a) * y \<le> (1 - a) * m" using assms by (simp add: mult_left_mono)
  ultimately have "a * x + (1 - a) * y \<le> a * m + (1 - a) * m" by linarith
  also have "\<dots> = m" by (simp add: algebra_simps)
  finally show ?thesis .
qed

lemma RPM_lag_le:
  assumes "RPM_lag e i x = Some (y, f)" and "x \<le> m" and "FiltState e \<le> m"
  shows "y \<le> m \<and> f \<le> m"
proof (cases "0 < Tau e")
  case True
  from alpha_bounds [OF True dt_clamp_gt0 [of i]]
  have "0 \<le> 1 / (1 + Tau e / dt_clamp i)" "1 / (1 + Tau e / dt_clamp i) \<le> 1" by linarith+
  from convex_le [OF this assms(2,3)] assms(1) True show ?thesis
    by (simp add: RPM_lag_eq)
next
  case False
  with assms show ?thesis by (simp add: RPM_lag_eq)
qed

text \<open>
  The filter state of a motor in RPM-command mode stays at or below \<open>MaxRPM\<close> over
  any number of calls once it is there; the constructor starts it at 0.
\<close>

lemma run_rpm_FiltState_le:
  assumes "MaxRPM e > 0" and "FiltState e \<le> MaxRPM e" and "run k ins ths cs n e = Some e'"
  shows "MaxRPM e' = MaxRPM e \<and> FiltState e' \<le> MaxRPM e"
  using assms(3)
proof (induction n arbitrary: e')
  case 0
  with assms(2) show ?case by simp
next
  case (Suc n)
  from Suc.prems obtain e1 r where e1: "run k ins ths cs n e = Some e1"
    and r: "Calculate k (ins n) (ths n) (cs n) e1 = Some r" and e': "e' = motor r"
    by (auto split: Option.bind_splits)
  from Suc.IH [OF e1] have m: "MaxRPM e1 = MaxRPM e" and f: "FiltState e1 \<le> MaxRPM e" by simp_all
  from Calculate_SomeD(2) [OF r] m assms(1)
  have br: "rpm_branch k e1 (ins n) (ths n) = Some (rawCmdPower r, FiltState (motor r))" by simp
  then obtain y where "RPM_lag e1 (ins n) (RPM_of e1 (ths n)) = Some (y, FiltState (motor r))"
    by (auto simp add: rpm_branch_def Let_def split: Option.bind_splits)
  from RPM_lag_le [OF this, of "MaxRPM e"] RPM_of_le [of e1 "ths n"] m f
  have "FiltState (motor r) \<le> MaxRPM e" by simp
  with Calculate_SomeD(6) [OF r] m e' show ?case by simp
qed

lemma run_init_FiltState_le:
  assumes "0 < m"
    and "run k ins ths cs n (FGElectric_init pm0 hp0 el_power (Some m) el_tau) = Some e'"
  shows "FiltState e' \<le> m"
  using run_rpm_FiltState_le [OF _ _ assms(2)] assms(1)
  by (simp add: FGElectric_init_def)

section \<open>The filter state over repeated calls in power-command mode\<close>

lemma lag_step_algebra:
  fixes a P d :: real
  shows "a * P + (1 - a) * (P + (1 - a) ^ n * d) = P + (1 - a) ^ Suc n * d"
  by (simp add: algebra_simps)

lemma run_power_closed:
  assumes mode: "MaxRPM e = 0" and tau: "0 < Tau e" and hp: "hptoftlbssec k \<noteq> 0"
    and P: "\<forall>n. GetPowerRequired (ths n) = P"
    and T: "\<forall>n. TotalDeltaT (ins n) = T"
  shows "\<exists>e'. run k ins ths cs n e = Some e' \<and> MaxRPM e' = 0 \<and> Tau e' = Tau e
           \<and> FiltState e' = P + (1 - 1 / (1 + Tau e / max 0.0001 T)) ^ n * (FiltState e - P)"
proof (induction n)
  case 0
  with mode show ?case by simp
next
  case (Suc n)
  then obtain e1 where e1: "run k ins ths cs n e = Some e1" and m: "MaxRPM e1 = 0"
    and t: "Tau e1 = Tau e"
    and f: "FiltState e1 = P + (1 - 1 / (1 + Tau e / max 0.0001 T)) ^ n * (FiltState e - P)"
    by blast
  have dt: "dt_clamp (ins n) = max 0.0001 T" using T by (simp add: dt_clamp_def)
  from m have nm: "\<not> MaxRPM e1 > 0" by simp
  let ?a = "1 / (1 + Tau e / max 0.0001 T)"
  have "?a * P + (1 - ?a) * (P + (1 - ?a) ^ n * (FiltState e - P))
          = P + (1 - ?a) ^ Suc n * (FiltState e - P)"
    by (rule lag_step_algebra)
  with e1 m t f tau dt P show ?case
    by (simp add: Calculate_power_eq [OF nm hp] del: power_Suc)
qed

section \<open>Rounding to binary64\<close>

text \<open>
  \<open>binade x\<close> is the exponent of the binade of \<open>x\<close>, and a rounded positive value
  stays in the closed binade of the exact one. Hence rounding keeps the sign, keeps a
  value from 1 up at 1 or above and a value up to 1 at 1 or below.
\<close>

lemma bitlen_ge1: "0 < m \<Longrightarrow> 1 \<le> bitlen m"
  by (simp add: bitlen_alt_def)

lemma binade_bounds:
  assumes "0 < x"
  shows "2 powi binade x \<le> x \<and> x < 2 powi (binade x + 1)"
proof (cases "1 \<le> x")
  case True
  define m where "m = \<lfloor>x\<rfloor>"
  from True have m: "0 < m" by (simp add: m_def)
  define b where "b = bitlen m"
  from bitlen_ge1 [OF m] have b: "1 \<le> b" by (simp add: b_def)
  from bitlen_bounds [OF m] have lo: "2 ^ nat (b - 1) \<le> m" and hi: "m < 2 ^ nat b"
    by (simp_all add: b_def)
  have e: "binade x = b - 1" using True by (simp add: binade_def m_def b_def)
  have "(2::real) powi (b - 1) = 2 ^ nat (b - 1)" using b by (simp add: power_int_nonneg_exp)
  also have "\<dots> = of_int (2 ^ nat (b - 1))" by simp
  also have "\<dots> \<le> of_int m" using lo by (simp only: of_int_le_iff)
  also have "\<dots> \<le> x" by (simp add: m_def)
  finally have l: "2 powi (b - 1) \<le> x" .
  from hi have "m + 1 \<le> 2 ^ nat b" by simp
  then have "real_of_int (m + 1) \<le> of_int (2 ^ nat b)" by (simp only: of_int_le_iff)
  moreover have "x < of_int (m + 1)" by (simp add: m_def)
  ultimately have "x < of_int (2 ^ nat b)" by linarith
  also have "\<dots> = 2 powi b" using b by (simp add: power_int_nonneg_exp)
  finally have "x < 2 powi (b - 1 + 1)" by simp
  with l e show ?thesis by simp
next
  case False
  with assms have x1: "x < 1" by simp
  define c where "c = \<lceil>1 / x\<rceil>"
  from assms x1 have "1 < 1 / x" by simp
  then have c2: "2 \<le> c" unfolding c_def by (simp add: le_ceiling_iff)
  define b where "b = bitlen (c - 1)"
  from c2 have n: "0 < c - 1" by simp
  from bitlen_ge1 [OF n] have b: "1 \<le> b" by (simp add: b_def)
  from bitlen_bounds [OF n] have lo: "2 ^ nat (b - 1) \<le> c - 1" and hi: "c - 1 < 2 ^ nat b"
    by (simp_all add: b_def)
  have e: "binade x = - b" using False by (simp add: binade_def c_def b_def)
  have p: "(0::real) < 2 powi b" "(0::real) < 2 powi (b - 1)" by simp_all
  from hi have "c \<le> 2 ^ nat b" by simp
  then have "real_of_int c \<le> of_int (2 ^ nat b)" by (simp only: of_int_le_iff)
  also have "\<dots> = 2 powi b" using b by (simp add: power_int_nonneg_exp)
  finally have "1 / x \<le> 2 powi b" using le_of_int_ceiling [of "1 / x"] unfolding c_def by linarith
  with assms p have l: "2 powi (- b) \<le> x"
    by (simp add: power_int_minus field_simps)
  have "(2::real) powi (b - 1) = of_int (2 ^ nat (b - 1))" using b by (simp add: power_int_nonneg_exp)
  also have "\<dots> \<le> of_int (c - 1)" using lo by (simp only: of_int_le_iff)
  also have "\<dots> < 1 / x" unfolding c_def using ceiling_correct [of "1 / x"] by simp
  finally have "2 powi (b - 1) < 1 / x" .
  with assms p have "x < 1 / 2 powi (b - 1)" by (simp add: field_simps)
  also have "\<dots> = 2 powi (- b + 1)" by (simp add: power_int_minus_divide [symmetric])
  finally have "x < 2 powi (- b + 1)" .
  with l e show ?thesis by simp
qed

lemma binade_nonneg: "1 \<le> x \<Longrightarrow> 0 \<le> binade x"
  using bitlen_ge1 [of "\<lfloor>x\<rfloor>"] by (simp add: binade_def)

lemma binade_neg: "0 < x \<Longrightarrow> x < 1 \<Longrightarrow> binade x \<le> - 1"
proof -
  assume "0 < x" "x < 1"
  then have "1 < 1 / x" by simp
  then have "2 \<le> \<lceil>1 / x\<rceil>" by (simp add: le_ceiling_iff)
  then have "0 < \<lceil>1 / x\<rceil> - 1" by simp
  from bitlen_ge1 [OF this] \<open>x < 1\<close> show ?thesis by (simp add: binade_def)
qed

lemma rne_cases: "rne y = \<lfloor>y\<rfloor> \<or> (rne y = \<lfloor>y\<rfloor> + 1 \<and> of_int \<lfloor>y\<rfloor> < y)"
  by (auto simp add: rne_def Let_def)

lemma rne_ge: "of_int m \<le> y \<Longrightarrow> m \<le> rne y"
proof -
  assume "of_int m \<le> y"
  then have "m \<le> \<lfloor>y\<rfloor>" by (simp add: le_floor_iff)
  with rne_cases [of y] show ?thesis by linarith
qed

lemma rne_le: "y \<le> of_int m \<Longrightarrow> rne y \<le> m"
proof -
  assume le: "y \<le> of_int m"
  then have f: "\<lfloor>y\<rfloor> \<le> m" by (simp add: floor_le_iff)
  show ?thesis
  proof (cases "rne y = \<lfloor>y\<rfloor>")
    case True
    with f show ?thesis by simp
  next
    case False
    with rne_cases [of y] have r: "rne y = \<lfloor>y\<rfloor> + 1" and lt: "of_int \<lfloor>y\<rfloor> < y" by auto
    from lt le have "real_of_int \<lfloor>y\<rfloor> < of_int m" by linarith
    then have "\<lfloor>y\<rfloor> < m" by (simp only: of_int_less_iff)
    with r show ?thesis by simp
  qed
qed

lemma b64_bounds:
  assumes x: "0 < x" and r: "b64 x = Some r"
  shows "2 powi binade x \<le> r \<and> r \<le> 2 powi (binade x + 1)"
proof -
  define e where "e = binade x"
  define u :: real where "u = 2 powi (e - 52)"
  have u: "0 < u" by (simp add: u_def)
  from x r have rv: "r = of_int (rne (x / u)) * u"
    by (simp add: b64_def Let_def e_def u_def split: if_splits)
  have lo_u: "2 powi e = of_int (2 ^ 52) * u"
    by (simp add: u_def power_int_diff)
  have hi_u: "2 powi (e + 1) = of_int (2 ^ 53) * u"
    by (simp add: u_def power_int_diff power_int_add)
  from binade_bounds [OF x] have bx: "2 powi e \<le> x" "x < 2 powi (e + 1)" by (simp_all add: e_def)
  from bx(1) u have "of_int (2 ^ 52) \<le> x / u" by (simp add: lo_u pos_le_divide_eq)
  from rne_ge [OF this] have "real_of_int (2 ^ 52) \<le> of_int (rne (x / u))"
    by (simp only: of_int_le_iff)
  with u have l: "2 powi e \<le> r" unfolding lo_u rv by (intro mult_right_mono) simp_all
  from bx(2) u have "x / u \<le> of_int (2 ^ 53)" by (simp add: hi_u pos_divide_le_eq)
  from rne_le [OF this] have "real_of_int (rne (x / u)) \<le> of_int (2 ^ 53)"
    by (simp only: of_int_le_iff)
  with u have h: "r \<le> 2 powi (e + 1)" unfolding hi_u rv by (intro mult_right_mono) simp_all
  from l h show ?thesis by (simp add: e_def)
qed

lemma b64_pos: "0 < x \<Longrightarrow> b64 x = Some r \<Longrightarrow> 0 < r"
proof -
  assume "0 < x" "b64 x = Some r"
  from b64_bounds [OF this] have "2 powi binade x \<le> r" ..
  moreover have "(0::real) < 2 powi binade x" by simp
  ultimately show ?thesis by linarith
qed

lemma b64_ge_one: "1 \<le> x \<Longrightarrow> b64 x = Some r \<Longrightarrow> 1 \<le> r"
proof -
  assume x: "1 \<le> x" and r: "b64 x = Some r"
  then have "0 < x" by simp
  from b64_bounds [OF this r] have "2 powi binade x \<le> r" ..
  moreover from binade_nonneg [OF x] have "(1::real) \<le> 2 powi binade x" by simp
  ultimately show ?thesis by linarith
qed

lemma b64_one: "b64 1 = Some 1"
  by (simp add: b64_def binade_def rne_def compute_bitlen Let_def)

lemma b64_le_one: "0 < x \<Longrightarrow> x \<le> 1 \<Longrightarrow> b64 x = Some r \<Longrightarrow> r \<le> 1"
proof -
  assume x: "0 < x" "x \<le> 1" and r: "b64 x = Some r"
  show ?thesis
  proof (cases "x = 1")
    case True
    with r show ?thesis by (simp add: b64_one)
  next
    case False
    with x have "x < 1" by simp
    from binade_neg [OF x(1) this] have "binade x + 1 \<le> 0" by simp
    then have "(2::real) powi (binade x + 1) \<le> 2 powi 0"
      by (intro power_int_increasing) simp_all
    with b64_bounds [OF x(1) r] show ?thesis by simp
  qed
qed

lemma dt_clamp64_eq:
  "dt_clamp64 i = Some (max (7378697629483821 / 2 ^ 66) (TotalDeltaT i))"
  by (simp add: dt_clamp64_def b64_def binade_def rne_def compute_bitlen Let_def)

lemma dt_clamp64_pos: "dt_clamp64 i = Some dt \<Longrightarrow> 0 < dt"
  by (auto simp add: dt_clamp64_eq less_max_iff_disj)

lemma alpha_calc64_range:
  assumes tau: "0 < Tau e" and dt: "0 < dt" and a: "alpha_calc64 e dt = Some a"
  shows "\<exists>q s. fdiv64 (Tau e) dt = Some q \<and> 0 < q \<and> b64 (1 + q) = Some s \<and> 1 \<le> s
             \<and> fdiv64 1 s = Some a \<and> 0 < a \<and> a \<le> 1"
proof -
  from a obtain q s where q: "fdiv64 (Tau e) dt = Some q" and s: "b64 (1 + q) = Some s"
    and d: "fdiv64 1 s = Some a"
    by (auto simp add: alpha_calc64_def split: Option.bind_splits)
  from tau dt have "0 < Tau e / dt" by simp
  moreover from q dt have "b64 (Tau e / dt) = Some q" by (simp add: fdiv64_def)
  ultimately have q0: "0 < q" by (rule b64_pos)
  then have "1 \<le> 1 + q" by simp
  from b64_ge_one [OF this s] have s1: "1 \<le> s" .
  then have "0 < 1 / s" "1 / s \<le> 1" by simp_all
  moreover from d s1 have da: "b64 (1 / s) = Some a" by (simp add: fdiv64_def)
  ultimately have "0 < a" "a \<le> 1" using b64_pos b64_le_one by blast+
  with q q0 s s1 d show ?thesis by blast
qed

section \<open>Properties\<close>

text \<open>
  C1: in power-command mode with the filter on, the claim is that the raw commanded power
  is \<open>PowerMax_ftlbssec * throttle + PowerReq - filtered\<close>, with \<open>filtered\<close> the
  output of the lag filter of this frame. The code computes the filter output (50 here)
  and stores it in \<^verbatim>\<open>FiltState\<close>, but subtracts \<^verbatim>\<open>PowerReq\<close> itself: the raw commanded
  power is 275 where the claimed formula gives 325.
\<close>

theorem Calculate_power_filter_unused:
  "Calculate kx half_throttle loaded 0 power_filtered =
     Some \<lparr>motor = power_filtered\<lparr>FiltState := 50, HP := 1 / 2\<rparr>,
           ThrusterCmd = 275, rawCmdPower = 275\<rparr>
   \<and> PowerMax_ftlbssec kx power_filtered * ThrottlePos half_throttle
       + GetPowerRequired loaded - 50 = 325"
  by (simp add: Calculate_power_eq kx_def half_throttle_def loaded_def power_filtered_def
        PowerMax_ftlbssec_def dt_clamp_def)

text \<open>
  C2, as stated: with \<open>MaxRPM = 0\<close> and \<open>Tau = 0\<close> the commanded power would be
  \<open>min (PowerMax_ftlbssec * throttle + PowerReq) PowerMax_ftlbssec\<close>. At half throttle
  and a required power of 100 the code commands 275, and the stated formula gives 375.
\<close>

theorem Calculate_power_plain_counterexample:
  "map_option ThrusterCmd (Calculate kx half_throttle loaded 0 power_plain) = Some 275
   \<and> min (PowerMax_ftlbssec kx power_plain * ThrottlePos half_throttle + GetPowerRequired loaded)
         (PowerMax_ftlbssec kx power_plain) = 375"
  by (simp add: Calculate_power_eq kx_def half_throttle_def loaded_def power_plain_def
        PowerMax_ftlbssec_def)

text \<open>
  With zero throttle, zero required power and a negative rated power the commanded power
  is the negative rating, not 0.
\<close>

lemma Calculate_zero_negative_rating:
  "map_option ThrusterCmd
     (Calculate kx \<lparr>ThrottlePos = 0, TotalDeltaT = 1\<rparr>
        \<lparr>GetPowerRequired = 0, GetGearRatio = 1, GetRPM = 0, GetTorque = 0\<rparr> 0
        \<lparr>PowerMax = - 745.7, MaxRPM = 0, Tau = 0, FiltState = 0, HP = 0\<rparr>) = Some (- 550)"
  by (simp add: Calculate_power_eq kx_def PowerMax_ftlbssec_def)

text \<open>
  C2, amended: with \<open>MaxRPM = 0\<close> and \<open>Tau = 0\<close> (and a conversion factor
  \<^verbatim>\<open>hptoftlbssec\<close> other than 0) \<^verbatim>\<open>Calculate\<close> returns; the raw commanded power is
  \<open>PowerMax_ftlbssec * throttle + PowerReq - PowerReq\<close>, so the required power cancels
  and the commanded power is \<open>min (PowerMax_ftlbssec * throttle) PowerMax_ftlbssec\<close>;
  \<^verbatim>\<open>FiltState\<close> keeps its value; with zero throttle and zero required power the commanded
  power is 0 when the rated power is not negative.
\<close>

theorem Calculate_power_plain:
  assumes "MaxRPM e = 0" and "Tau e = 0" and "hptoftlbssec k \<noteq> 0"
  shows "\<exists>r. Calculate k i t c e = Some r
           \<and> rawCmdPower r =
               PowerMax_ftlbssec k e * ThrottlePos i + GetPowerRequired t - GetPowerRequired t
           \<and> ThrusterCmd r =
               min (PowerMax_ftlbssec k e * ThrottlePos i) (PowerMax_ftlbssec k e)
           \<and> FiltState (motor r) = FiltState e
           \<and> (ThrottlePos i = 0 \<longrightarrow> GetPowerRequired t = 0 \<longrightarrow> 0 \<le> PowerMax_ftlbssec k e
                \<longrightarrow> ThrusterCmd r = 0)"
  using assms by (simp add: Calculate_power_eq)

text \<open>The amended C2 at half throttle on the unfiltered sample motor.\<close>

theorem Calculate_power_plain_witness:
  "\<exists>r. Calculate kx half_throttle loaded 0 power_plain = Some r
       \<and> rawCmdPower r = 275 \<and> ThrusterCmd r = 275 \<and> FiltState (motor r) = 0"
  using Calculate_power_plain [of power_plain kx half_throttle loaded 0]
  by (auto simp add: kx_def half_throttle_def loaded_def power_plain_def PowerMax_ftlbssec_def)

text \<open>
  C3: in both modes, whenever no division is by zero (the conversion factor
  \<^verbatim>\<open>hptoftlbssec\<close> is not 0, and in RPM-command mode the gear ratio is not 0),
  \<^verbatim>\<open>Calculate\<close> returns and the commanded power is \<open>min raw PowerMax_ftlbssec\<close>, where
  \<open>raw\<close> is what the branch of the active mode computed. It never exceeds
  \<open>PowerMax_ftlbssec\<close>. There is no lower clamp: a raw value at or below the bound is
  passed on unchanged, so with a rated power that is not negative every negative raw
  value is.
\<close>

theorem Calculate_saturation:
  assumes hp: "hptoftlbssec k \<noteq> 0"
    and gear: "MaxRPM e > 0 \<longrightarrow> GetGearRatio t \<noteq> 0"
  shows "\<exists>r. Calculate k i t c e = Some r
           \<and> (if MaxRPM e > 0 then rpm_branch k e i t else power_branch k e i t c)
               = Some (rawCmdPower r, FiltState (motor r))
           \<and> ThrusterCmd r = min (rawCmdPower r) (PowerMax_ftlbssec k e)
           \<and> ThrusterCmd r \<le> PowerMax_ftlbssec k e
           \<and> (rawCmdPower r \<le> PowerMax_ftlbssec k e \<longrightarrow> ThrusterCmd r = rawCmdPower r)
           \<and> (0 \<le> PowerMax_ftlbssec k e \<longrightarrow> rawCmdPower r < 0 \<longrightarrow> ThrusterCmd r = rawCmdPower r)"
proof -
  obtain raw f where br:
    "(if MaxRPM e > 0 then rpm_branch k e i t else power_branch k e i t c) = Some (raw, f)"
  proof (cases "MaxRPM e > 0")
    case True
    obtain x g where "RPM_lag e i (RPM_of e t) = Some (x, g)"
      by (cases "0 < Tau e") (simp_all add: RPM_lag_eq)
    with True gear that show ?thesis
      by (simp add: rpm_branch_eq)
  next
    case False
    with that show ?thesis by (simp add: power_branch_eq)
  qed
  from Calculate_eq [OF hp br] br show ?thesis
    by (simp cong: if_cong)
qed

text \<open>
  C3 in RPM-command mode, throttle 1.5 and a propeller at overspeed: the raw commanded
  power is far above the rating and the commanded power is the rating, 550 ft-lbs/sec.
\<close>

theorem Calculate_saturation_witness:
  "\<exists>r. Calculate kx over_throttle overspeed 0 rpm_filtered = Some r
       \<and> rawCmdPower r = 104720000 / 10001
       \<and> ThrusterCmd r = 550"
  using Calculate_saturation [of kx rpm_filtered overspeed over_throttle 0]
  by (auto simp add: kx_def rpm_filtered_def overspeed_def over_throttle_def PowerMax_ftlbssec_def
      rpm_branch_def RPM_lag_def alpha_calc_def dt_clamp_def CmdRPM_of_def RPM_of_def Let_def)



text \<open>
  C5: the lag filter, in both modes. Its input is the clamped RPM measure in RPM-command
  mode and the required power in power-command mode. When \<open>Tau > 0\<close> the new filtered
  value is \<open>alpha * raw + (1 - alpha) * FiltState\<close> with
  \<open>alpha = 1 / (1 + Tau / dt)\<close> and it is the new \<^verbatim>\<open>FiltState\<close>. When \<open>Tau \<le> 0\<close>,
  \<^verbatim>\<open>FiltState\<close> keeps its value and the computation uses the raw input in place of a
  filtered one.
\<close>

theorem lag_filter_update:
  defines raw: "raw e t \<equiv> (if MaxRPM e > 0 then RPM_of e t else GetPowerRequired t)"
  assumes hp: "hptoftlbssec k \<noteq> 0"
    and gear: "MaxRPM e > 0 \<longrightarrow> GetGearRatio t \<noteq> 0"
  shows "\<exists>r. Calculate k i t c e = Some r
           \<and> (0 < Tau e \<longrightarrow>
                (\<exists>alpha. alpha_calc e (dt_clamp i) = Some alpha
                    \<and> alpha = 1 / (1 + Tau e / dt_clamp i)
                    \<and> FiltState (motor r) = alpha * raw e t + (1 - alpha) * FiltState e
                    \<and> (MaxRPM e > 0 \<longrightarrow>
                         RPM_lag e i (raw e t) = Some (FiltState (motor r), FiltState (motor r)))))
           \<and> (Tau e \<le> 0 \<longrightarrow>
                FiltState (motor r) = FiltState e
                \<and> (if MaxRPM e > 0
                    then RPM_lag e i (raw e t) = Some (raw e t, FiltState e)
                       \<and> rawCmdPower r =
                           \<bar>GetTorque t\<bar> / GetGearRatio t
                             * ((CmdRPM_of e i - raw e t) * rpmtoradpsec k) + GetPowerRequired t
                    else rawCmdPower r =
                           PowerMax_ftlbssec k e * ThrottlePos i + GetPowerRequired t - raw e t))"
proof (cases "MaxRPM e > 0")
  case False
  note d = dt_clamp_gt0 [of i]
  from False hp raw show ?thesis
    by (simp add: Calculate_power_eq alpha_calc_Some [OF _ d])
next
  case True
  with gear have g: "GetGearRatio t \<noteq> 0" by simp
  note d = dt_clamp_gt0 [of i]
  obtain x f where lag: "RPM_lag e i (RPM_of e t) = Some (x, f)"
    by (cases "0 < Tau e") (simp_all add: RPM_lag_eq)
  from True rpm_branch_eq [OF g lag, of k]
  have "(if MaxRPM e > 0 then rpm_branch k e i t else power_branch k e i t c) =
      Some (\<bar>GetTorque t\<bar> / GetGearRatio t * ((CmdRPM_of e i - x) * rpmtoradpsec k)
             + GetPowerRequired t, f)" by simp
  note calc = Calculate_eq [OF hp this]
  show ?thesis
  proof (cases "0 < Tau e")
    case t: True
    with lag calc True raw show ?thesis
      by (simp add: RPM_lag_eq alpha_calc_Some [OF _ d])
  next
    case f: False
    with lag calc True raw show ?thesis
      by (auto simp add: RPM_lag_eq)
  qed
qed

text \<open>C5 on the filtered power-mode sample: \<open>alpha\<close> is 1/2 and the new state is 50.\<close>

theorem lag_filter_update_witness:
  "\<exists>r. Calculate kx half_throttle loaded 0 power_filtered = Some r
       \<and> alpha_calc power_filtered (dt_clamp half_throttle) = Some (1 / 2)
       \<and> FiltState (motor r) = 1 / 2 * 100 + (1 - 1 / 2) * 0"
  using lag_filter_update [of kx power_filtered loaded half_throttle 0]
  by (auto simp add: kx_def power_filtered_def loaded_def half_throttle_def dt_clamp_def
       alpha_calc_def)

text \<open>
  C6, as stated: in power-command mode with \<open>Tau > 0\<close> and the required power held
  constant, the distance between the filter state and the required power never grows
  and tends to 0. In binary64 this fails. Take \<open>Tau = 4\<close> and \<open>TotalDeltaT = 1\<close>, so
  that \<open>alpha\<close> is the double nearest to 1/5. One call at a required power of 15 takes
  the filter state from the constructor's 0 to 3. With the required power then held at
  3, the state is at distance 0; the next call stores \<open>3 + 1 / 2 ^ 51\<close>, one unit in the
  last place above 3, so the distance has grown; and that value is a fixed point of the
  call, so the distance stays there and does not tend to 0.
\<close>

theorem power_filter_binary64_counterexample:
  "PowerReqFilt64 slow_filter half_throttle need15 = Some 3
   \<and> PowerReqFilt64 (slow_filter\<lparr>FiltState := 3\<rparr>) half_throttle need3 = Some (3 + 1 / 2 ^ 51)
   \<and> \<bar>3 - GetPowerRequired need3\<bar> < \<bar>(3 + 1 / 2 ^ 51) - GetPowerRequired need3\<bar>
   \<and> PowerReqFilt64 (slow_filter\<lparr>FiltState := 3 + 1 / 2 ^ 51\<rparr>) half_throttle need3
       = Some (3 + 1 / 2 ^ 51)"
  by (simp add: PowerReqFilt64_def dt_clamp64_def alpha_calc64_def fdiv64_def b64_def binade_def
        rne_def compute_bitlen Let_def slow_filter_def half_throttle_def need15_def need3_def)

text \<open>
  C6, amended: in exact arithmetic, in power-command mode with \<open>Tau > 0\<close>, required
  power \<open>P\<close> and \<^verbatim>\<open>TotalDeltaT\<close> the same in every frame (throttle free to change),
  every call returns and the filter states \<open>f 0, f 1, \<dots>\<close> satisfy: the distance to
  \<open>P\<close> never grows, the sequence is monotone and stays on its side of \<open>P\<close>, it
  converges to \<open>P\<close>, and the difference between \<open>P\<close> and the filter output of frame
  \<open>n\<close> tends to 0.
\<close>

theorem power_filter_converges:
  assumes mode: "MaxRPM e = 0" and tau: "0 < Tau e" and hp: "hptoftlbssec k \<noteq> 0"
    and P: "\<forall>n. GetPowerRequired (ths n) = P"
    and T: "\<forall>n. TotalDeltaT (ins n) = T"
  shows "\<exists>f. (\<forall>n. map_option FiltState (run k ins ths cs n e) = Some (f n))
           \<and> f 0 = FiltState e
           \<and> (\<forall>n. \<bar>f (Suc n) - P\<bar> \<le> \<bar>f n - P\<bar>)
           \<and> (f 0 \<le> P \<longrightarrow> (\<forall>n. f n \<le> f (Suc n) \<and> f n \<le> P))
           \<and> (P \<le> f 0 \<longrightarrow> (\<forall>n. f (Suc n) \<le> f n \<and> P \<le> f n))
           \<and> f \<longlonglongrightarrow> P
           \<and> (\<lambda>n. P - f (Suc n)) \<longlonglongrightarrow> 0"
proof -
  define b where "b = 1 - 1 / (1 + Tau e / max 0.0001 T)"
  define f where "f n = P + b ^ n * (FiltState e - P)" for n
  have "0 < max 0.0001 T" by (simp add: less_max_iff_disj)
  from alpha_bounds [OF tau this] have b0: "0 < b" and b1: "b < 1"
    by (simp_all add: b_def)
  have run: "map_option FiltState (run k ins ths cs n e) = Some (f n)" for n
    using run_power_closed [OF mode tau hp P T, of cs n] by (auto simp add: f_def b_def)
  have f0: "f 0 = FiltState e" by (simp add: f_def)
  have diff: "f n - P = b ^ n * (FiltState e - P)" for n by (simp add: f_def)
  have step: "f (Suc n) - P = b * (f n - P)" for n by (simp add: diff)
  have dist: "\<bar>f (Suc n) - P\<bar> \<le> \<bar>f n - P\<bar>" for n
  proof -
    have "\<bar>f (Suc n) - P\<bar> = b * \<bar>f n - P\<bar>" using b0 by (simp add: step abs_mult)
    also have "\<dots> \<le> 1 * \<bar>f n - P\<bar>" using b1 by (intro mult_right_mono) simp_all
    finally show ?thesis by simp
  qed
  have below: "f n \<le> f (Suc n) \<and> f n \<le> P" if "f 0 \<le> P" for n
  proof -
    from that have "FiltState e - P \<le> 0" by (simp add: f0)
    with b0 have le: "f n - P \<le> 0" by (simp add: diff mult_nonneg_nonpos)
    then have "1 * (f n - P) \<le> b * (f n - P)" using b1
      by (intro mult_right_mono_neg) simp_all
    with step [of n] le show ?thesis by simp
  qed
  have above: "f (Suc n) \<le> f n \<and> P \<le> f n" if "P \<le> f 0" for n
  proof -
    from that have "0 \<le> FiltState e - P" by (simp add: f0)
    with b0 have ge: "0 \<le> f n - P" by (simp add: diff)
    then have "b * (f n - P) \<le> 1 * (f n - P)" using b1
      by (intro mult_right_mono) simp_all
    with step [of n] ge show ?thesis by simp
  qed
  have pow: "(\<lambda>n. b ^ n) \<longlonglongrightarrow> 0"
    using b0 b1 by (intro LIMSEQ_realpow_zero) simp_all
  have "(\<lambda>n. P + b ^ n * (FiltState e - P)) \<longlonglongrightarrow> P + 0 * (FiltState e - P)"
    by (intro tendsto_add tendsto_mult tendsto_const pow)
  then have lim: "f \<longlonglongrightarrow> P" by (simp add: f_def [abs_def])
  have "(\<lambda>n. P - f (Suc n)) \<longlonglongrightarrow> P - P"
    by (intro tendsto_diff tendsto_const) (rule LIMSEQ_Suc [OF lim])
  then have corr: "(\<lambda>n. P - f (Suc n)) \<longlonglongrightarrow> 0" by simp
  from run f0 dist below above lim corr show ?thesis by blast
qed

text \<open>The amended C6 on the filtered power-mode sample, held at a required power of 100.\<close>

theorem power_filter_converges_witness:
  "\<exists>f. (\<forall>n. map_option FiltState
              (run kx (\<lambda>_. half_throttle) (\<lambda>_. loaded) (\<lambda>_. 0) n power_filtered) = Some (f n))
       \<and> f 0 = 0
       \<and> (\<forall>n. f n \<le> f (Suc n) \<and> f n \<le> 100)
       \<and> f \<longlonglongrightarrow> 100
       \<and> (\<lambda>n. 100 - f (Suc n)) \<longlonglongrightarrow> 0"
proof -
  have "MaxRPM power_filtered = 0" "0 < Tau power_filtered" "hptoftlbssec kx \<noteq> 0"
    "\<forall>n::nat. GetPowerRequired loaded = 100" "\<forall>n::nat. TotalDeltaT half_throttle = 1"
    by (simp_all add: power_filtered_def kx_def loaded_def half_throttle_def)
  from power_filter_converges [of power_filtered kx "\<lambda>_. loaded" 100 "\<lambda>_. half_throttle" 1 "\<lambda>_. 0",
      OF this]
  obtain f where f: "\<forall>n. map_option FiltState
              (run kx (\<lambda>_. half_throttle) (\<lambda>_. loaded) (\<lambda>_. 0) n power_filtered) = Some (f n)"
    "f 0 = FiltState power_filtered"
    "f 0 \<le> 100 \<longrightarrow> (\<forall>n. f n \<le> f (Suc n) \<and> f n \<le> 100)"
    "f \<longlonglongrightarrow> 100" "(\<lambda>n. 100 - f (Suc n)) \<longlonglongrightarrow> 0"
    by blast
  from f(2) have "f 0 = 0" by (simp add: power_filtered_def)
  with f show ?thesis by (intro exI [where x = f]) simp
qed

text \<open>
  C7, as stated: for \<open>Tau > 0\<close>, \<open>alpha\<close> lies strictly between 0 and 1. In binary64
  this fails: with \<open>Tau = 1 / 2 ^ 60\<close> and \<open>TotalDeltaT = 1\<close> the clamped \<open>dt\<close> is 1, the
  sum \<open>1 + Tau / dt\<close> rounds to 1 and \<open>alpha\<close> is exactly 1.
\<close>

theorem alpha_binary64_counterexample:
  "0 < Tau tiny_tau \<and> dt_clamp64 half_throttle = Some 1 \<and> alpha_calc64 tiny_tau 1 = Some 1"
  by (simp add: dt_clamp64_def alpha_calc64_def fdiv64_def b64_def binade_def
        rne_def compute_bitlen Let_def tiny_tau_def half_throttle_def)

text \<open>
  C7, amended: \<^verbatim>\<open>dt\<close> is \<open>max 0.0001 TotalDeltaT\<close>, at least 0.0001 whatever
  \<^verbatim>\<open>TotalDeltaT\<close> is. When \<open>Tau > 0\<close> both divisions of
  \<^verbatim>\<open>alpha = 1 / (1 + (Tau / dt))\<close> have a divisor other than zero, and in exact
  arithmetic \<open>alpha\<close> lies strictly between 0 and 1. The two blocks that hold these
  divisions never fail, for any \<open>Tau\<close>, and the only divisions of \<^verbatim>\<open>Calculate\<close> that can
  be by zero are those by the gear ratio and by the conversion factor. In binary64,
  \<^verbatim>\<open>dt\<close> is positive, and when \<open>Tau > 0\<close> and no result leaves the normal range the
  divisor \<open>1 + Tau / dt\<close> is at least 1 and \<open>0 < alpha \<le> 1\<close>.
\<close>

theorem alpha_division_safe:
  "dt_clamp i = max 0.0001 (TotalDeltaT i)
   \<and> 0.0001 \<le> dt_clamp i
   \<and> (0 < Tau e \<longrightarrow>
        (\<exists>q a. fdiv (Tau e) (dt_clamp i) = Some q \<and> fdiv 1 (1 + q) = Some a
               \<and> alpha_calc e (dt_clamp i) = Some a \<and> 0 < a \<and> a < 1))
   \<and> RPM_lag e i x \<noteq> None
   \<and> power_branch k e i t c \<noteq> None
   \<and> (Calculate k i t c e = None \<longleftrightarrow>
        hptoftlbssec k = 0 \<or> (MaxRPM e > 0 \<and> GetGearRatio t = 0))
   \<and> (\<exists>dt. dt_clamp64 i = Some dt \<and> 0 < dt
          \<and> (\<forall>a. 0 < Tau e \<longrightarrow> alpha_calc64 e dt = Some a \<longrightarrow>
                (\<exists>q s. fdiv64 (Tau e) dt = Some q \<and> b64 (1 + q) = Some s \<and> 1 \<le> s
                       \<and> fdiv64 1 s = Some a \<and> 0 < a \<and> a \<le> 1)))"
proof -
  have d: "0 < dt_clamp i" by (rule dt_clamp_gt0)
  have "dt_clamp i = max 0.0001 (TotalDeltaT i)" by (simp add: dt_clamp_def)
  moreover have "0.0001 \<le> dt_clamp i" by (simp add: dt_clamp_def)
  moreover have "\<exists>q a. fdiv (Tau e) (dt_clamp i) = Some q \<and> fdiv 1 (1 + q) = Some a
               \<and> alpha_calc e (dt_clamp i) = Some a \<and> 0 < a \<and> a < 1" if "0 < Tau e"
  proof -
    from that d have q: "0 < Tau e / dt_clamp i" by simp
    then have nz: "1 + Tau e / dt_clamp i \<noteq> 0" by linarith
    from d have "fdiv (Tau e) (dt_clamp i) = Some (Tau e / dt_clamp i)" by simp
    moreover from nz have "fdiv 1 (1 + Tau e / dt_clamp i) = Some (1 / (1 + Tau e / dt_clamp i))"
      by simp
    moreover note alpha_calc_Some [OF that d] alpha_bounds [OF that d]
    ultimately show ?thesis by blast
  qed
  moreover have "RPM_lag e i x \<noteq> None" by (simp add: RPM_lag_eq)
  moreover have "power_branch k e i t c \<noteq> None" by (simp add: power_branch_eq)
  moreover note Calculate_None_iff [of k i t c e]
  moreover have "\<exists>dt. dt_clamp64 i = Some dt \<and> 0 < dt
          \<and> (\<forall>a. 0 < Tau e \<longrightarrow> alpha_calc64 e dt = Some a \<longrightarrow>
                (\<exists>q s. fdiv64 (Tau e) dt = Some q \<and> b64 (1 + q) = Some s \<and> 1 \<le> s
                       \<and> fdiv64 1 s = Some a \<and> 0 < a \<and> a \<le> 1))"
  proof -
    obtain dt where dt: "dt_clamp64 i = Some dt" by (simp add: dt_clamp64_eq)
    from dt_clamp64_pos [OF this] have p: "0 < dt" .
    from alpha_calc64_range [OF _ p] dt p show ?thesis by blast
  qed
  ultimately show ?thesis by blast
qed

text \<open>
  The amended C7 at \<open>TotalDeltaT = 0\<close> and \<open>Tau = 1\<close>: in exact arithmetic \<open>dt\<close> is
  0.0001 and \<open>alpha\<close> is 1/10001; in binary64 \<open>dt\<close> is the double nearest to 0.0001
  and \<open>alpha\<close> the double nearest to 1/10001.
\<close>

theorem alpha_division_safe_witness:
  "0 < Tau rpm_filtered \<and> TotalDeltaT over_throttle \<le> 0
   \<and> alpha_calc rpm_filtered (dt_clamp over_throttle) = Some (1 / 10001)
   \<and> dt_clamp64 over_throttle = Some (7378697629483821 / 2 ^ 66)
   \<and> alpha_calc64 rpm_filtered (7378697629483821 / 2 ^ 66) = Some (7377959833500471 / 2 ^ 66)"
  using alpha_division_safe [of over_throttle rpm_filtered 0 kx overspeed 0]
  by (simp add: rpm_filtered_def over_throttle_def dt_clamp_def alpha_calc_def
        dt_clamp64_def alpha_calc64_def fdiv64_def b64_def binade_def rne_def compute_bitlen
        Let_def)



text \<open>
  C9: the result of \<^verbatim>\<open>Calculate\<close> (the commanded power, \<^verbatim>\<open>HP\<close>, the filter state) is the
  same for any two values \<open>c1\<close> and \<open>c2\<close> that the read of the unassigned \<^verbatim>\<open>CmdPower\<close>
  in line 154 could yield; line 157 overwrites the variable. This holds in every mode.
\<close>

theorem Calculate_indep_uninitialised:
  "Calculate k i t c1 e = Calculate k i t c2 e"
  by (simp add: Calculate_def power_branch_eq)

text \<open>
  C10: \<^verbatim>\<open>CalcFuelNeed\<close> returns 0 whatever the state of the motor is.
\<close>

theorem CalcFuelNeed_zero: "CalcFuelNeed e = 0"
  by (simp add: CalcFuelNeed_def)

end
